theory Spec2Isabelle
  imports Complex_Main "HOL-Library.Product_Lexorder"
begin

section \<open>Persistence schema\<close>

text \<open>
  The Express comment routes query the tables \<open>users\<close>, \<open>articles\<close>, \<open>comments\<close> and
  \<open>comment_likes\<close> of the raw-SQL schema. A value of the PostgreSQL type UUID is a natural
  number here, a timestamp an integer. A table is the list of its rows.
\<close>

type_synonym uuid = nat
type_synonym timestamp = int

datatype role = RoleUser | Contributor | Admin

datatype article_status = Draft | Published | Archived

record user =
  u_id :: uuid
  u_username :: string
  u_email :: string
  u_first_name :: string
  u_last_name :: string
  u_role :: role
  u_is_active :: bool

record article =
  a_id :: uuid
  a_title :: string
  a_slug :: string
  a_status :: article_status

record comment =
  c_id :: uuid
  c_content :: string
  c_article_id :: uuid
  c_user_id :: uuid
  c_parent_id :: "uuid option"
  c_is_approved :: bool
  c_created_at :: timestamp
  c_updated_at :: timestamp

record comment_like =
  l_id :: uuid
  l_comment_id :: uuid
  l_user_id :: uuid
  l_created_at :: timestamp

record db =
  users :: "user list"
  articles :: "article list"
  comments :: "comment list"
  comment_likes :: "comment_like list"

text \<open>
  What a request takes from outside the store: the outcome of \<open>jwt.verify\<close> on a token
  (under the server's secret), the value of \<open>CURRENT_TIMESTAMP\<close> and the value that
  \<open>uuid_generate_v4()\<close> returns for a row inserted by this request.
\<close>

datatype jwt_error = TokenExpiredError | JsonWebTokenError | NotBeforeError

record env =
  jwt_verify :: "string \<Rightarrow> jwt_error + uuid"
  now :: timestamp
  new_id :: uuid

text \<open>
  A request parameter is absent, present but rejected by its parser (a string that is not
  an integer, or that PostgreSQL cannot cast to UUID), or present with its value.
\<close>

datatype 'a param = Absent | Invalid | Given 'a

section \<open>Responses\<close>

record author_view =
  av_id :: uuid
  av_username :: string
  av_firstName :: string
  av_lastName :: string

record reply_view =
  rv_id :: uuid
  rv_content :: string
  rv_createdAt :: timestamp
  rv_updatedAt :: timestamp
  rv_author :: author_view
  rv_likesCount :: int

record comment_view =
  cv_id :: uuid
  cv_content :: string
  cv_createdAt :: timestamp
  cv_updatedAt :: timestamp
  cv_author :: author_view
  cv_likesCount :: int
  cv_repliesCount :: int
  cv_replies :: "reply_view list"

record pagination =
  currentPage :: int
  totalPages :: int
  totalComments :: int
  hasNextPage :: bool
  hasPrevPage :: bool

record created_view =
  nv_id :: uuid
  nv_content :: string
  nv_createdAt :: timestamp
  nv_parentId :: "uuid option"
  nv_isApproved :: bool
  nv_author :: author_view

record pending_view =
  pv_id :: uuid
  pv_content :: string
  pv_createdAt :: timestamp
  pv_author :: "string \<times> string \<times> string"
  pv_article :: "uuid \<times> string \<times> string"

datatype body =
    ErrorBody string string "string list"
  | ListBody "comment_view list" pagination
  | CreatedBody string created_view
  | UpdatedBody string uuid string timestamp
  | MessageBody string
  | LikeBody string bool
  | ApprovedBody string uuid bool
  | PendingBody "pending_view list" nat

record response =
  status :: nat
  body :: body

definition reply :: "nat \<Rightarrow> body \<Rightarrow> response" where
  "reply s b = \<lparr>status = s, body = b\<rparr>"

definition fail :: "nat \<Rightarrow> string \<Rightarrow> string \<Rightarrow> response" where
  "fail s e m = reply s (ErrorBody e m [])"

section \<open>Authentication and authorization guards (middleware/auth.js)\<close>

text \<open>\<open>String.prototype.split(' ')\<close>: every single space separates two pieces.\<close>

fun split_sp :: "string \<Rightarrow> string list" where
  "split_sp [] = [ [] ]"
| "split_sp (c # cs) =
     (if c = CHR '' '' then [] # split_sp cs
      else (case split_sp cs of [] \<Rightarrow> [ [c] ] | w # ws \<Rightarrow> (c # w) # ws))"

text \<open>
  \<open>authHeader && authHeader.split(' ')[1]\<close>, read for truthiness: a missing or empty
  header, a header of one piece, and an empty second piece all give no token.
\<close>

definition token_of :: "string option \<Rightarrow> string option" where
  "token_of h =
     (case h of
        None \<Rightarrow> None
      | Some s \<Rightarrow>
          (if s = [] then None
           else (case split_sp s of
                   _ # t # _ \<Rightarrow> (if t = [] then None else Some t)
                 | _ \<Rightarrow> None)))"

definition find_user :: "db \<Rightarrow> uuid \<Rightarrow> user list" where
  "find_user d i = filter (\<lambda>u. u_id u = i) (users d)"

definition authenticateToken :: "env \<Rightarrow> db \<Rightarrow> string option \<Rightarrow> response + user" where
  "authenticateToken e d h =
     (case token_of h of
        None \<Rightarrow> Inl (fail 401 ''Access token required''
                      ''Please provide a valid authentication token'')
      | Some t \<Rightarrow>
          (case jwt_verify e t of
             Inl err \<Rightarrow>
               (if err = TokenExpiredError
                then Inl (fail 401 ''Token expired''
                      ''Your authentication token has expired. Please log in again.'')
                else Inl (fail 403 ''Invalid token''
                      ''The provided authentication token is invalid''))
           | Inr uid \<Rightarrow>
               (case find_user d uid of
                  [] \<Rightarrow> Inl (fail 401 ''User not found''
                      ''The user associated with this token no longer exists'')
                | u # _ \<Rightarrow>
                    (if \<not> u_is_active u
                     then Inl (fail 401 ''Account deactivated''
                      ''Your account has been deactivated. Please contact support.'')
                     else Inr u))))"

text \<open>
  \<open>requireOwnershipOrAdmin('comments', 'id')\<close>: \<open>None\<close> is \<open>next()\<close>. The resource id is
  \<open>req.params.id || req.body.id\<close>; a value that is not a UUID makes the ownership query
  throw, which the guard's own handler turns into 500.
\<close>

definition requireOwnershipOrAdmin :: "db \<Rightarrow> user \<Rightarrow> uuid param \<Rightarrow> response option" where
  "requireOwnershipOrAdmin d u rid =
     (if u_role u = Admin then None
      else (case rid of
              Absent \<Rightarrow> Some (fail 400 ''Resource ID required''
                      ''Resource ID is required to verify ownership'')
            | Invalid \<Rightarrow> Some (fail 500 ''Ownership verification error''
                      ''An error occurred while verifying resource ownership'')
            | Given i \<Rightarrow>
                (case filter (\<lambda>c. c_id c = i) (comments d) of
                   [] \<Rightarrow> Some (fail 404 ''Resource not found''
                      ''The requested resource does not exist'')
                 | c # _ \<Rightarrow>
                     (if c_user_id c \<noteq> u_id u
                      then Some (fail 403 ''Access denied''
                      ''You can only modify your own resources'')
                      else None))))"

section \<open>Validation (express-validator)\<close>

text \<open>
  \<open>trim()\<close> removes the characters that the regular expression class \<open>\s\<close> matches from
  both ends; among the characters of this string type these are tab, line feed, vertical
  tab, form feed, carriage return, space and the no-break space.
\<close>

definition is_space :: "char \<Rightarrow> bool" where
  "is_space c \<longleftrightarrow>
     c \<in> set [CHR 0x09, CHR 0x0A, CHR 0x0B, CHR 0x0C, CHR 0x0D, CHR 0x20, CHR 0xA0]"

definition trim :: "string \<Rightarrow> string" where
  "trim s = rev (dropWhile is_space (rev (dropWhile is_space s)))"

text \<open>\<open>isLength({ min: 1, max: 1000 })\<close>, applied to the trimmed content.\<close>

definition valid_content :: "string \<Rightarrow> bool" where
  "valid_content s \<longleftrightarrow> 1 \<le> length s \<and> length s \<le> 1000"

definition content_msg :: string where
  "content_msg = ''Comment content is required and must be less than 1000 characters''"

record list_query =
  q_page :: "int param"
  q_limit :: "int param"
  q_sort :: "string option"

definition list_errors :: "list_query \<Rightarrow> string list" where
  "list_errors q =
     (case q_page q of
        Absent \<Rightarrow> []
      | Invalid \<Rightarrow> [''Page must be a positive integer'']
      | Given p \<Rightarrow> (if 1 \<le> p then [] else [''Page must be a positive integer''])) @
     (case q_limit q of
        Absent \<Rightarrow> []
      | Invalid \<Rightarrow> [''Limit must be between 1 and 100'']
      | Given l \<Rightarrow> (if 1 \<le> l \<and> l \<le> 100 then [] else [''Limit must be between 1 and 100''])) @
     (case q_sort q of
        None \<Rightarrow> []
      | Some s \<Rightarrow> (if s \<in> set [''newest'', ''oldest'', ''likes''] then []
                  else [''Invalid sort option'']))"

text \<open>\<open>const { page = 1, limit = 20, sort = 'newest' } = req.query\<close>\<close>

definition page_of :: "list_query \<Rightarrow> int" where
  "page_of q = (case q_page q of Given p \<Rightarrow> p | _ \<Rightarrow> 1)"

definition limit_of :: "list_query \<Rightarrow> int" where
  "limit_of q = (case q_limit q of Given l \<Rightarrow> l | _ \<Rightarrow> 20)"

definition sort_of :: "list_query \<Rightarrow> string" where
  "sort_of q = (case q_sort q of Some s \<Rightarrow> s | None \<Rightarrow> ''newest'')"

section \<open>Queries and statements\<close>

datatype db_error = InvalidByteSequence | PrimaryKey | UniqueKey | ForeignKey

text \<open>
  A value of the PostgreSQL type \<open>TEXT\<close> cannot hold the character with code 0: a statement
  that is given such a string as the value of a \<open>TEXT\<close> column throws.
\<close>

definition storable_text :: "string \<Rightarrow> bool" where
  "storable_text s \<longleftrightarrow> CHR 0x00 \<notin> set s"

definition join_users :: "db \<Rightarrow> comment list \<Rightarrow> (comment \<times> user) list" where
  "join_users d cs =
     concat (map (\<lambda>c. map (\<lambda>u. (c, u)) (filter (\<lambda>u. u_id u = c_user_id c) (users d))) cs)"

definition likes_count :: "db \<Rightarrow> uuid \<Rightarrow> int" where
  "likes_count d i = int (length (filter (\<lambda>l. l_comment_id l = i) (comment_likes d)))"

definition approved_replies :: "db \<Rightarrow> uuid \<Rightarrow> comment list" where
  "approved_replies d i =
     filter (\<lambda>c. c_parent_id c = Some i \<and> c_is_approved c) (comments d)"

definition top_level :: "db \<Rightarrow> uuid \<Rightarrow> comment list" where
  "top_level d a =
     filter (\<lambda>c. c_article_id c = a \<and> c_parent_id c = None \<and> c_is_approved c) (comments d)"

definition published :: "db \<Rightarrow> uuid \<Rightarrow> article list" where
  "published d a = filter (\<lambda>x. a_id x = a \<and> a_status x = Published) (articles d)"

text \<open>
  The \<open>ORDER BY\<close> clause built by the \<open>switch\<close> on \<open>sort\<close>. Rows with equal keys stay in
  table order, one of the orders PostgreSQL may return.
\<close>

definition order_by :: "string \<Rightarrow> db \<Rightarrow> (comment \<times> user) list \<Rightarrow> (comment \<times> user) list" where
  "order_by srt d rows =
     (if srt = ''oldest'' then sort_key (\<lambda>(c, u). c_created_at c) rows
      else if srt = ''likes''
        then sort_key (\<lambda>(c, u). (- likes_count d (c_id c), - c_created_at c)) rows
      else sort_key (\<lambda>(c, u). - c_created_at c) rows)"

text \<open>
  \<open>INSERT INTO comments\<close>: the value of the \<open>TEXT\<close> column \<open>content\<close>, the primary key,
  then the foreign keys to \<open>articles\<close>, \<open>users\<close> and \<open>comments\<close>.
\<close>

definition insert_comment :: "db \<Rightarrow> comment \<Rightarrow> db_error + db" where
  "insert_comment d r =
     (if \<not> storable_text (c_content r) then Inl InvalidByteSequence
      else if c_id r \<in> set (map c_id (comments d)) then Inl PrimaryKey
      else if c_article_id r \<notin> set (map a_id (articles d)) then Inl ForeignKey
      else if c_user_id r \<notin> set (map u_id (users d)) then Inl ForeignKey
      else if (case c_parent_id r of None \<Rightarrow> False
               | Some p \<Rightarrow> p \<notin> set (map c_id (comments d))) then Inl ForeignKey
      else Inr (d\<lparr>comments := comments d @ [r]\<rparr>))"

text \<open>
  \<open>INSERT INTO comment_likes\<close>: the primary key, \<open>UNIQUE(comment_id, user_id)\<close>, then the
  foreign keys to \<open>comments\<close> and \<open>users\<close>.
\<close>

definition has_like :: "db \<Rightarrow> uuid \<Rightarrow> uuid \<Rightarrow> bool" where
  "has_like d i uid \<longleftrightarrow>
     filter (\<lambda>l. l_comment_id l = i \<and> l_user_id l = uid) (comment_likes d) \<noteq> []"

definition insert_like :: "db \<Rightarrow> comment_like \<Rightarrow> db_error + db" where
  "insert_like d r =
     (if l_id r \<in> set (map l_id (comment_likes d)) then Inl PrimaryKey
      else if has_like d (l_comment_id r) (l_user_id r) then Inl UniqueKey
      else if l_comment_id r \<notin> set (map c_id (comments d)) then Inl ForeignKey
      else if l_user_id r \<notin> set (map u_id (users d)) then Inl ForeignKey
      else Inr (d\<lparr>comment_likes := comment_likes d @ [r]\<rparr>))"

text \<open>
  \<open>parent_id UUID REFERENCES comments(id) ON DELETE CASCADE\<close>: deleting the rows \<open>front\<close>
  deletes the rows whose parent is among them, then the rows whose parent is among those,
  until no row refers to a deleted one. \<open>gone\<close> collects the ids deleted so far.
\<close>

definition child_of :: "uuid list \<Rightarrow> comment \<Rightarrow> bool" where
  "child_of front c \<longleftrightarrow> (case c_parent_id c of None \<Rightarrow> False | Some p \<Rightarrow> p \<in> set front)"

function cascade :: "uuid list \<Rightarrow> uuid list \<Rightarrow> comment list \<Rightarrow> uuid list \<times> comment list" where
  "cascade front gone cs =
     (if filter (child_of front) cs = [] then (gone, cs)
      else cascade (map c_id (filter (child_of front) cs))
             (gone @ map c_id (filter (child_of front) cs))
             (filter (\<lambda>c. \<not> child_of front c) cs))"
  by pat_completeness auto
termination
proof (relation "measure (\<lambda>(front, gone, cs). length cs)")
  show "wf (measure (\<lambda>(front, gone, cs). length cs))" by simp
next
  fix front gone :: "uuid list" and cs :: "comment list"
  assume "filter (child_of front) cs \<noteq> []"
  then obtain c where "c \<in> set cs" and "child_of front c"
    by (metis filter_False)
  then have "length (filter (\<lambda>c. \<not> child_of front c) cs) < length cs"
    by (intro length_filter_less[of c]) auto
  then show "((map c_id (filter (child_of front) cs),
               gone @ map c_id (filter (child_of front) cs),
               filter (\<lambda>c. \<not> child_of front c) cs), (front, gone, cs))
             \<in> measure (\<lambda>(front, gone, cs). length cs)"
    by simp
qed

declare cascade.simps [simp del]

text \<open>
  \<open>DELETE FROM comments WHERE id = $1\<close> with its cascades: the replies through
  \<open>comments.parent_id\<close>, the likes of every deleted comment through
  \<open>comment_likes.comment_id ... ON DELETE CASCADE\<close>.
\<close>

definition delete_rows :: "db \<Rightarrow> uuid \<Rightarrow> db" where
  "delete_rows d i =
     (case cascade [i] [i] (filter (\<lambda>c. c_id c \<noteq> i) (comments d)) of
        (gone, rest) \<Rightarrow>
          d\<lparr>comments := rest,
            comment_likes := filter (\<lambda>l. l_comment_id l \<notin> set gone) (comment_likes d)\<rparr>)"

section \<open>Handlers of the comment routes\<close>

definition author_of :: "user \<Rightarrow> author_view" where
  "author_of u =
     \<lparr>av_id = u_id u, av_username = u_username u,
      av_firstName = u_first_name u, av_lastName = u_last_name u\<rparr>"

definition reply_of :: "db \<Rightarrow> comment \<times> user \<Rightarrow> reply_view" where
  "reply_of d r =
     (case r of (c, u) \<Rightarrow>
        \<lparr>rv_id = c_id c, rv_content = c_content c, rv_createdAt = c_created_at c,
         rv_updatedAt = c_updated_at c, rv_author = author_of u,
         rv_likesCount = likes_count d (c_id c)\<rparr>)"

text \<open>The replies query run for one top-level comment: \<open>ORDER BY c.created_at ASC\<close>.\<close>

definition get_replies :: "db \<Rightarrow> uuid \<Rightarrow> reply_view list" where
  "get_replies d i =
     map (reply_of d)
       (sort_key (\<lambda>(c, u). c_created_at c) (join_users d (approved_replies d i)))"

definition view_of :: "db \<Rightarrow> comment \<times> user \<Rightarrow> comment_view" where
  "view_of d r =
     (case r of (c, u) \<Rightarrow>
        \<lparr>cv_id = c_id c, cv_content = c_content c, cv_createdAt = c_created_at c,
         cv_updatedAt = c_updated_at c, cv_author = author_of u,
         cv_likesCount = likes_count d (c_id c),
         cv_repliesCount = int (length (approved_replies d (c_id c))),
         cv_replies = get_replies d (c_id c)\<rparr>)"

text \<open>
  \<open>GET /article/:articleId\<close>. A path parameter is \<open>None\<close> when PostgreSQL cannot cast it
  to UUID: the first query that takes it throws, and the handler answers 500.
  \<open>Math.ceil(totalComments / limit)\<close> is the ceiling of the quotient of the two numbers;
  with a limit of at most 100 the double-precision quotient has the ceiling of the exact
  one for every count below \<open>2^46\<close>.
\<close>

definition get_article_comments :: "db \<Rightarrow> uuid option \<Rightarrow> list_query \<Rightarrow> response" where
  "get_article_comments d aid q =
     (if list_errors q \<noteq> []
      then reply 400 (ErrorBody ''Validation failed''
             ''Please check your query parameters'' (list_errors q))
      else
        (case aid of
           None \<Rightarrow> fail 500 ''Failed to retrieve comments''
                      ''An error occurred while retrieving comments''
         | Some a \<Rightarrow>
             (let page = page_of q; limit = limit_of q; offset = (page - 1) * limit in
              if published d a = []
              then fail 404 ''Article not found''
                     ''The requested article does not exist or is not published''
              else
                (let total = int (length (top_level d a));
                     pages = \<lceil>real_of_int total / real_of_int limit\<rceil>;
                     rows = take (nat limit) (drop (nat offset)
                              (order_by (sort_of q) d (join_users d (top_level d a))))
                 in reply 200
                      (ListBody (map (view_of d) rows)
                         \<lparr>currentPage = page, totalPages = pages, totalComments = total,
                          hasNextPage = (page < pages), hasPrevPage = (page > 1)\<rparr>)))))"

text \<open>\<open>POST /\<close>: \<open>authenticateToken\<close>, the body validators, then the handler.\<close>

definition create_errors :: "string \<Rightarrow> uuid param \<Rightarrow> uuid param \<Rightarrow> string list" where
  "create_errors content aid pid =
     (if valid_content (trim content) then [] else [content_msg]) @
     (case aid of Given _ \<Rightarrow> [] | _ \<Rightarrow> [''Article ID must be a valid UUID'']) @
     (case pid of Invalid \<Rightarrow> [''Parent comment ID must be a valid UUID''] | _ \<Rightarrow> [])"

definition parent_of :: "uuid param \<Rightarrow> uuid option" where
  "parent_of pid = (case pid of Given p \<Rightarrow> Some p | _ \<Rightarrow> None)"

definition post_comment ::
    "env \<Rightarrow> db \<Rightarrow> string option \<Rightarrow> string \<Rightarrow> uuid param \<Rightarrow> uuid param \<Rightarrow> response \<times> db" where
  "post_comment e d h content aid pid =
     (case authenticateToken e d h of
        Inl r \<Rightarrow> (r, d)
      | Inr u \<Rightarrow>
          (if create_errors content aid pid \<noteq> []
           then (reply 400 (ErrorBody ''Validation failed'' ''Please check your input''
                   (create_errors content aid pid)), d)
           else
             (case aid of
                Given a \<Rightarrow>
                  (if published d a = []
                   then (fail 404 ''Article not found''
                     ''The article you are trying to comment on does not exist or is not published'',
                     d)
                   else if (case parent_of pid of
                              None \<Rightarrow> False
                            | Some p \<Rightarrow>
                                filter (\<lambda>c. c_id c = p \<and> c_article_id c = a \<and> c_is_approved c)
                                  (comments d) = [])
                   then (fail 404 ''Parent comment not found''
                     ''The comment you are trying to reply to does not exist'', d)
                   else
                     (case insert_comment d
                        \<lparr>c_id = new_id e, c_content = trim content, c_article_id = a,
                         c_user_id = u_id u, c_parent_id = parent_of pid,
                         c_is_approved = (if u_role u = Admin then True else False),
                         c_created_at = now e, c_updated_at = now e\<rparr> of
                        Inl _ \<Rightarrow> (fail 500 ''Failed to create comment''
                                   ''An error occurred while creating the comment'', d)
                      | Inr d' \<Rightarrow>
                          (reply 201
                             (CreatedBody
                                (if u_role u = Admin then ''Comment created successfully''
                                 else ''Comment submitted for approval'')
                                \<lparr>nv_id = new_id e, nv_content = trim content,
                                 nv_createdAt = now e, nv_parentId = parent_of pid,
                                 nv_isApproved = (u_role u = Admin),
                                 nv_author = author_of u\<rparr>), d')))
              | _ \<Rightarrow> (fail 500 ''Failed to create comment''
                        ''An error occurred while creating the comment'', d))))"

definition as_param :: "uuid option \<Rightarrow> uuid param" where
  "as_param i = (case i of None \<Rightarrow> Invalid | Some x \<Rightarrow> Given x)"

text \<open>
  \<open>PUT /:id\<close>: \<open>authenticateToken\<close>, \<open>requireOwnershipOrAdmin('comments')\<close>, the content
  validator, then the \<open>UPDATE\<close>, which sets \<open>content\<close> and \<open>updated_at\<close> (the trigger
  \<open>update_comments_updated_at\<close> sets \<open>updated_at\<close> to the same \<open>CURRENT_TIMESTAMP\<close>). The
  \<open>UPDATE\<close> throws when its \<open>id\<close> is no UUID or its \<open>content\<close> no \<open>TEXT\<close> value.
\<close>

definition update_rows :: "uuid \<Rightarrow> (comment \<Rightarrow> comment) \<Rightarrow> db \<Rightarrow> db" where
  "update_rows i f d = d\<lparr>comments := map (\<lambda>c. if c_id c = i then f c else c) (comments d)\<rparr>"

definition put_comment ::
    "env \<Rightarrow> db \<Rightarrow> string option \<Rightarrow> uuid option \<Rightarrow> string \<Rightarrow> response \<times> db" where
  "put_comment e d h i content =
     (case authenticateToken e d h of
        Inl r \<Rightarrow> (r, d)
      | Inr u \<Rightarrow>
          (case requireOwnershipOrAdmin d u (as_param i) of
             Some r \<Rightarrow> (r, d)
           | None \<Rightarrow>
               (if \<not> valid_content (trim content)
                then (reply 400 (ErrorBody ''Validation failed'' ''Please check your input''
                        [content_msg]), d)
                else
                  (case i of
                     None \<Rightarrow> (fail 500 ''Failed to update comment''
                                ''An error occurred while updating the comment'', d)
                   | Some x \<Rightarrow>
                       (if \<not> storable_text (trim content)
                        then (fail 500 ''Failed to update comment''
                                ''An error occurred while updating the comment'', d)
                        else if filter (\<lambda>c. c_id c = x) (comments d) = []
                        then (fail 404 ''Comment not found''
                                ''The comment you are trying to update does not exist'', d)
                        else
                          (reply 200 (UpdatedBody ''Comment updated successfully''
                             x (trim content) (now e)),
                           update_rows x
                             (\<lambda>c. c\<lparr>c_content := trim content, c_updated_at := now e\<rparr>) d))))))"

text \<open>\<open>DELETE /:id\<close>: the same two guards, then the \<open>DELETE\<close> and its cascades.\<close>

definition delete_comment ::
    "env \<Rightarrow> db \<Rightarrow> string option \<Rightarrow> uuid option \<Rightarrow> response \<times> db" where
  "delete_comment e d h i =
     (case authenticateToken e d h of
        Inl r \<Rightarrow> (r, d)
      | Inr u \<Rightarrow>
          (case requireOwnershipOrAdmin d u (as_param i) of
             Some r \<Rightarrow> (r, d)
           | None \<Rightarrow>
               (case i of
                  None \<Rightarrow> (fail 500 ''Failed to delete comment''
                             ''An error occurred while deleting the comment'', d)
                | Some x \<Rightarrow>
                    (if filter (\<lambda>c. c_id c = x) (comments d) = []
                     then (fail 404 ''Comment not found''
                             ''The comment you are trying to delete does not exist'', d)
                     else (reply 200 (MessageBody ''Comment deleted successfully''),
                           delete_rows d x)))))"

text \<open>
  \<open>POST /:id/like\<close>. The handler reads \<open>comment_likes\<close> and then writes it in a second
  statement; \<open>k\<close> is what other requests commit between the two. A statement that throws
  reaches the handler's \<open>catch\<close>, which answers 500.
\<close>

definition post_like_between ::
    "env \<Rightarrow> (db \<Rightarrow> db) \<Rightarrow> db \<Rightarrow> string option \<Rightarrow> uuid option \<Rightarrow> response \<times> db" where
  "post_like_between e k d h i =
     (case authenticateToken e d h of
        Inl r \<Rightarrow> (r, d)
      | Inr u \<Rightarrow>
          (case i of
             None \<Rightarrow> (fail 500 ''Failed to toggle comment like''
                        ''An error occurred while processing your like'', d)
           | Some x \<Rightarrow>
               (if filter (\<lambda>c. c_id c = x \<and> c_is_approved c) (comments d) = []
                then (fail 404 ''Comment not found''
                        ''The comment you are trying to like does not exist'', d)
                else if has_like d x (u_id u)
                then (reply 200 (LikeBody ''Comment unliked successfully'' False),
                      (k d)\<lparr>comment_likes :=
                              filter (\<lambda>l. \<not> (l_comment_id l = x \<and> l_user_id l = u_id u))
                                (comment_likes (k d))\<rparr>)
                else
                  (case insert_like (k d)
                     \<lparr>l_id = new_id e, l_comment_id = x, l_user_id = u_id u,
                      l_created_at = now e\<rparr> of
                     Inl _ \<Rightarrow> (fail 500 ''Failed to toggle comment like''
                                ''An error occurred while processing your like'', k d)
                   | Inr d' \<Rightarrow> (reply 200 (LikeBody ''Comment liked successfully'' True), d')))))"

text \<open>The handler when no other request commits in between.\<close>

definition post_like :: "env \<Rightarrow> db \<Rightarrow> string option \<Rightarrow> uuid option \<Rightarrow> response \<times> db" where
  "post_like e d h i = post_like_between e (\<lambda>s. s) d h i"

text \<open>
  \<open>PUT /:id/approve\<close>: \<open>authenticateToken\<close>, \<open>requireOwnershipOrAdmin('comments', 'id')\<close>,
  then the \<open>UPDATE\<close> that sets \<open>is_approved = true\<close>.
\<close>

definition put_approve ::
    "env \<Rightarrow> db \<Rightarrow> string option \<Rightarrow> uuid option \<Rightarrow> response \<times> db" where
  "put_approve e d h i =
     (case authenticateToken e d h of
        Inl r \<Rightarrow> (r, d)
      | Inr u \<Rightarrow>
          (case requireOwnershipOrAdmin d u (as_param i) of
             Some r \<Rightarrow> (r, d)
           | None \<Rightarrow>
               (case i of
                  None \<Rightarrow> (fail 500 ''Failed to approve comment''
                             ''An error occurred while approving the comment'', d)
                | Some x \<Rightarrow>
                    (if filter (\<lambda>c. c_id c = x) (comments d) = []
                     then (fail 404 ''Comment not found''
                             ''The comment you are trying to approve does not exist'', d)
                     else
                       (reply 200 (ApprovedBody ''Comment approved successfully'' x True),
                        update_rows x
                          (\<lambda>c. c\<lparr>c_is_approved := True, c_updated_at := now e\<rparr>) d)))))"

text \<open>
  \<open>GET /pending\<close>: the route has no \<open>:id\<close>, so the guard reads \<open>req.body.id\<close>.
\<close>

definition pending_of :: "(comment \<times> user) \<times> article \<Rightarrow> pending_view" where
  "pending_of r =
     (case r of ((c, u), a) \<Rightarrow>
        \<lparr>pv_id = c_id c, pv_content = c_content c, pv_createdAt = c_created_at c,
         pv_author = (u_username u, u_first_name u, u_last_name u),
         pv_article = (c_article_id c, a_title a, a_slug a)\<rparr>)"

definition pending_rows :: "db \<Rightarrow> ((comment \<times> user) \<times> article) list" where
  "pending_rows d =
     sort_key (\<lambda>((c, u), a). c_created_at c)
       (concat (map (\<lambda>r. map (\<lambda>a. (r, a))
                           (filter (\<lambda>a. a_id a = c_article_id (fst r)) (articles d)))
          (join_users d (filter (\<lambda>c. \<not> c_is_approved c) (comments d)))))"

definition get_pending :: "env \<Rightarrow> db \<Rightarrow> string option \<Rightarrow> uuid param \<Rightarrow> response" where
  "get_pending e d h bid =
     (case authenticateToken e d h of
        Inl r \<Rightarrow> r
      | Inr u \<Rightarrow>
          (case requireOwnershipOrAdmin d u bid of
             Some r \<Rightarrow> r
           | None \<Rightarrow>
               reply 200 (PendingBody (map pending_of (pending_rows d))
                            (length (map pending_of (pending_rows d))))))"

section \<open>The comment subsystem as a transition system\<close>

datatype request =
    GetArticleComments "uuid option" list_query
  | PostComment "string option" string "uuid param" "uuid param"
  | PutComment "string option" "uuid option" string
  | DeleteComment "string option" "uuid option"
  | PostLike "string option" "uuid option"
  | PutApprove "string option" "uuid option"
  | GetPending "string option" "uuid param"

fun handle :: "env \<Rightarrow> db \<Rightarrow> request \<Rightarrow> response \<times> db" where
  "handle e d (GetArticleComments a q) = (get_article_comments d a q, d)"
| "handle e d (PostComment h content a p) = post_comment e d h content a p"
| "handle e d (PutComment h i content) = put_comment e d h i content"
| "handle e d (DeleteComment h i) = delete_comment e d h i"
| "handle e d (PostLike h i) = post_like e d h i"
| "handle e d (PutApprove h i) = put_approve e d h i"
| "handle e d (GetPending h b) = (get_pending e d h b, d)"

text \<open>A sequence of requests, each with what it takes from outside the store.\<close>

fun run :: "db \<Rightarrow> (env \<times> request) list \<Rightarrow> db" where
  "run d [] = d"
| "run d (er # rs) = run (snd (handle (fst er) d (snd er))) rs"

text \<open>The comment with id \<open>x\<close> is still stored after every request of the sequence.\<close>

fun survives :: "uuid \<Rightarrow> db \<Rightarrow> (env \<times> request) list \<Rightarrow> bool" where
  "survives x d [] = True"
| "survives x d (er # rs) =
     (x \<in> set (map c_id (comments (snd (handle (fst er) d (snd er)))))
      \<and> survives x (snd (handle (fst er) d (snd er))) rs)"

text \<open>
  One step never takes approval away: each row of the new table is an old row, or has the
  id of an old row and is approved if that one was, or has an id that was not in the table.
\<close>

definition keeps_approval :: "db \<Rightarrow> db \<Rightarrow> bool" where
  "keeps_approval d d' \<longleftrightarrow>
     (\<forall>c' \<in> set (comments d').
        c' \<in> set (comments d)
      \<or> (\<exists>c \<in> set (comments d). c_id c = c_id c' \<and> (c_is_approved c \<longrightarrow> c_is_approved c'))
      \<or> c_id c' \<notin> set (map c_id (comments d)))"

section \<open>A sample store\<close>

text \<open>
  One article, an admin and two ordinary users, two approved top-level comments, two replies
  under the first, a pending comment and one like; the concrete instances below run on it.
\<close>

definition env0 :: env where
  "env0 =
     \<lparr>jwt_verify = (\<lambda>t. if t = ''admin-token'' then Inr 1
                         else if t = ''alice-token'' then Inr 2
                         else if t = ''bob-token'' then Inr 3
                         else if t = ''old-token'' then Inl TokenExpiredError
                         else Inl JsonWebTokenError),
      now = 50, new_id = 500\<rparr>"

definition db0 :: db where
  "db0 =
     \<lparr>users =
        [\<lparr>u_id = 1, u_username = ''root'', u_email = ''root@naath.org'',
          u_first_name = ''Ann'', u_last_name = ''Root'', u_role = Admin,
          u_is_active = True\<rparr>,
         \<lparr>u_id = 2, u_username = ''alice'', u_email = ''alice@naath.org'',
          u_first_name = ''Alice'', u_last_name = ''Deng'', u_role = RoleUser,
          u_is_active = True\<rparr>,
         \<lparr>u_id = 3, u_username = ''bob'', u_email = ''bob@naath.org'',
          u_first_name = ''Bob'', u_last_name = ''Gatluak'', u_role = RoleUser,
          u_is_active = True\<rparr>],
      articles =
        [\<lparr>a_id = 10, a_title = ''Cattle camps'', a_slug = ''cattle-camps'',
          a_status = Published\<rparr>],
      comments =
        [\<lparr>c_id = 100, c_content = ''First'', c_article_id = 10, c_user_id = 2,
          c_parent_id = None, c_is_approved = True, c_created_at = 20, c_updated_at = 20\<rparr>,
         \<lparr>c_id = 101, c_content = ''Late reply'', c_article_id = 10, c_user_id = 3,
          c_parent_id = Some 100, c_is_approved = True, c_created_at = 40,
          c_updated_at = 40\<rparr>,
         \<lparr>c_id = 102, c_content = ''Early reply'', c_article_id = 10, c_user_id = 1,
          c_parent_id = Some 100, c_is_approved = True, c_created_at = 30,
          c_updated_at = 30\<rparr>,
         \<lparr>c_id = 103, c_content = ''Waiting'', c_article_id = 10, c_user_id = 2,
          c_parent_id = None, c_is_approved = False, c_created_at = 45,
          c_updated_at = 45\<rparr>,
         \<lparr>c_id = 104, c_content = ''Second'', c_article_id = 10, c_user_id = 3,
          c_parent_id = None, c_is_approved = True, c_created_at = 35,
          c_updated_at = 35\<rparr>],
      comment_likes =
        [\<lparr>l_id = 1000, l_comment_id = 100, l_user_id = 3, l_created_at = 41\<rparr>]\<rparr>"

text \<open>
  What a second toggle-like request of user 2 on comment 100 commits when it wins the race:
  its own like row.
\<close>

definition rival_like :: "db \<Rightarrow> db" where
  "rival_like s =
     s\<lparr>comment_likes := comment_likes s @
          [\<lparr>l_id = 501, l_comment_id = 100, l_user_id = 2, l_created_at = 49\<rparr>]\<rparr>"

text \<open>A later request: a later time, another generated id.\<close>

definition env1 :: env where
  "env1 = env0\<lparr>now := 60, new_id := 502\<rparr>"

text \<open>
  An edit, a like, an approval, a listing, a deletion of a reply and a new comment, none of
  which removes comment 100.
\<close>

definition rs0 :: "(env \<times> request) list" where
  "rs0 =
     [(env0, PutComment (Some ''Bearer alice-token'') (Some 100) ''First!''),
      (env0, PostLike (Some ''Bearer alice-token'') (Some 100)),
      (env0, PutApprove (Some ''Bearer admin-token'') (Some 103)),
      (env0, GetArticleComments (Some 10) \<lparr>q_page = Absent, q_limit = Absent, q_sort = None\<rparr>),
      (env0, DeleteComment (Some ''Bearer bob-token'') (Some 101)),
      (env1, PostComment (Some ''Bearer bob-token'') ''Thanks'' (Given 10) (Given 100))]"

text \<open>The first page of one comment, most liked first.\<close>

definition q1 :: list_query where
  "q1 = \<lparr>q_page = Given 1, q_limit = Given 1, q_sort = Some ''likes''\<rparr>"

text \<open>The \<open>liked\<close> field of a toggle-like response.\<close>

definition liked_of :: "response \<Rightarrow> bool option" where
  "liked_of r = (case body r of LikeBody m b \<Rightarrow> Some b | _ \<Rightarrow> None)"

text \<open>A guard that stops the request with the given HTTP status.\<close>

definition rejected_with :: "response + 'a \<Rightarrow> nat \<Rightarrow> bool" where
  "rejected_with r s \<longleftrightarrow> (case r of Inl x \<Rightarrow> status x = s | Inr _ \<Rightarrow> False)"

section \<open>Facts about the guards\<close>

lemma auth_user: "authenticateToken e d h = Inr u \<Longrightarrow> u \<in> set (users d) \<and> u_is_active u"
proof -
  assume a: "authenticateToken e d h = Inr u"
  then obtain i us where f: "find_user d i = u # us" and act: "u_is_active u"
    unfolding authenticateToken_def
    by (auto split: option.splits sum.splits list.splits if_splits)
  have "u \<in> set (find_user d i)" using f by simp
  then show ?thesis using act by (simp add: find_user_def)
qed

lemma auth_status: "authenticateToken e d h = Inl r \<Longrightarrow> status r = 401 \<or> status r = 403"
  unfolding authenticateToken_def
  by (auto simp add: fail_def reply_def split: option.splits sum.splits list.splits if_splits)

lemma guard_status:
  "requireOwnershipOrAdmin d u rid = Some r \<Longrightarrow> status r \<in> {400, 403, 404, 500}"
  unfolding requireOwnershipOrAdmin_def
  by (auto simp add: fail_def reply_def split: param.splits list.splits if_splits)

lemmas sample_auth = authenticateToken_def token_of_def env0_def db0_def find_user_def

section \<open>Approval is not restricted to admins\<close>

text \<open>
  C1 (approve requires the admin role). The route guards approval with
  \<open>requireOwnershipOrAdmin\<close>, which lets the author of a comment through: user 2, whose role
  is \<open>user\<close>, approves her own pending comment 103 and gets 200.
\<close>

theorem owner_approves_own_comment:
  "map u_role (find_user db0 2) = [RoleUser] \<and>
   authenticateToken env0 db0 (Some ''Bearer alice-token'') = Inr (users db0 ! 1) \<and>
   status (fst (put_approve env0 db0 (Some ''Bearer alice-token'') (Some 103))) = 200 \<and>
   map c_is_approved (filter (\<lambda>c. c_id c = 103) (comments db0)) = [False] \<and>
   map c_is_approved (filter (\<lambda>c. c_id c = 103)
     (comments (snd (put_approve env0 db0 (Some ''Bearer alice-token'') (Some 103))))) = [True]"
  by (simp add: put_approve_def authenticateToken_def token_of_def env0_def db0_def find_user_def
      requireOwnershipOrAdmin_def as_param_def update_rows_def fail_def reply_def)

section \<open>Invalid tokens\<close>

text \<open>
  C2 as stated (a malformed or wrongly signed token is answered with 401, never 403) fails:
  the token \<open>invalid-token\<close>, which \<open>jwt.verify\<close> rejects with \<open>JsonWebTokenError\<close>, is
  answered with 403 and not with 401.
\<close>

theorem invalid_token_is_403:
  "rejected_with (authenticateToken env0 db0 (Some ''Bearer invalid-token'')) 403
   \<and> \<not> rejected_with (authenticateToken env0 db0 (Some ''Bearer invalid-token'')) 401"
  by (simp add: rejected_with_def authenticateToken_def token_of_def env0_def fail_def reply_def)

text \<open>
  C2, amended: for every request whose bearer token \<open>jwt.verify\<close> rejects with an error
  other than \<open>TokenExpiredError\<close> (a malformed token, a wrong signature), the authentication
  guard stops the request with status 403 and error \<open>Invalid token\<close>, and not with status
  401.
\<close>

theorem authenticateToken_invalid_credential:
  assumes "token_of h = Some t" and "jwt_verify e t = Inl err" and "err \<noteq> TokenExpiredError"
  shows "authenticateToken e d h =
           Inl (fail 403 ''Invalid token'' ''The provided authentication token is invalid'')
         \<and> rejected_with (authenticateToken e d h) 403
         \<and> \<not> rejected_with (authenticateToken e d h) 401"
  using assms by (simp add: authenticateToken_def rejected_with_def fail_def reply_def)

text \<open>C2, amended, at the token \<open>invalid-token\<close> on the sample store.\<close>

theorem authenticateToken_invalid_credential_witness:
  "token_of (Some ''Bearer invalid-token'') = Some ''invalid-token''
   \<and> jwt_verify env0 ''invalid-token'' = Inl JsonWebTokenError
   \<and> JsonWebTokenError \<noteq> TokenExpiredError
   \<and> rejected_with (authenticateToken env0 db0 (Some ''Bearer invalid-token'')) 403"
proof -
  have a: "token_of (Some ''Bearer invalid-token'') = Some ''invalid-token''"
    by (simp add: token_of_def)
  have b: "jwt_verify env0 ''invalid-token'' = Inl JsonWebTokenError"
    by (simp add: env0_def)
  have c: "JsonWebTokenError \<noteq> TokenExpiredError" by simp
  show ?thesis
    using authenticateToken_invalid_credential[OF a b c, of db0] a b by blast
qed

section \<open>A like that loses the race\<close>

text \<open>
  C3 as stated (a uniqueness violation of the like insert is answered with success) fails:
  user 2 toggles her like on comment 100, a second request of hers commits its like row
  between the read and the insert, the insert violates \<open>UNIQUE(comment_id, user_id)\<close> and
  the response is 500.
\<close>

theorem like_unique_violation_is_500:
  "insert_like (rival_like db0)
     \<lparr>l_id = new_id env0, l_comment_id = 100, l_user_id = 2, l_created_at = now env0\<rparr>
     = Inl UniqueKey
   \<and> status (fst (post_like_between env0 rival_like db0 (Some ''Bearer alice-token'')
        (Some 100))) = 500"
  by (simp add: post_like_between_def authenticateToken_def token_of_def env0_def db0_def
      find_user_def rival_like_def insert_like_def has_like_def fail_def reply_def)

text \<open>
  C3, amended: when the insert of the like row fails with a uniqueness violation, the
  toggle-like operation answers 500 with error \<open>Failed to toggle comment like\<close>; it writes
  nothing, and the like row that was there at insert time stays.
\<close>

theorem post_like_unique_violation:
  assumes "authenticateToken e d h = Inr u"
    and "filter (\<lambda>c. c_id c = x \<and> c_is_approved c) (comments d) \<noteq> []"
    and "\<not> has_like d x (u_id u)"
    and "insert_like (k d) \<lparr>l_id = new_id e, l_comment_id = x, l_user_id = u_id u,
           l_created_at = now e\<rparr> = Inl UniqueKey"
  shows "post_like_between e k d h (Some x) =
           (fail 500 ''Failed to toggle comment like''
              ''An error occurred while processing your like'', k d)
         \<and> status (fst (post_like_between e k d h (Some x))) = 500
         \<and> has_like (k d) x (u_id u)"
  using assms
  by (auto simp add: post_like_between_def fail_def reply_def insert_like_def split: if_splits)

text \<open>C3, amended, at the race of user 2 on comment 100 of the sample store.\<close>

theorem post_like_unique_violation_witness:
  "authenticateToken env0 db0 (Some ''Bearer alice-token'') = Inr (users db0 ! 1)
   \<and> filter (\<lambda>c. c_id c = 100 \<and> c_is_approved c) (comments db0) \<noteq> []
   \<and> \<not> has_like db0 100 2
   \<and> fst (post_like_between env0 rival_like db0 (Some ''Bearer alice-token'') (Some 100)) =
       fail 500 ''Failed to toggle comment like''
         ''An error occurred while processing your like''
   \<and> has_like (snd (post_like_between env0 rival_like db0 (Some ''Bearer alice-token'')
        (Some 100))) 100 2"
proof -
  have a: "authenticateToken env0 db0 (Some ''Bearer alice-token'') = Inr (users db0 ! 1)"
    by (simp add: authenticateToken_def token_of_def env0_def db0_def find_user_def)
  have b: "filter (\<lambda>c. c_id c = 100 \<and> c_is_approved c) (comments db0) \<noteq> []"
    by (simp add: db0_def)
  have i: "u_id (users db0 ! 1) = 2" by (simp add: db0_def)
  have c: "\<not> has_like db0 100 (u_id (users db0 ! 1))"
    by (simp add: has_like_def db0_def)
  have d: "insert_like (rival_like db0) \<lparr>l_id = new_id env0, l_comment_id = 100,
             l_user_id = u_id (users db0 ! 1), l_created_at = now env0\<rparr> = Inl UniqueKey"
    by (simp add: insert_like_def rival_like_def has_like_def db0_def env0_def)
  show ?thesis
    using post_like_unique_violation[where k = rival_like and d = db0 and e = env0, OF a b c d]
      a b c i by simp
qed

section \<open>Listing: pagination and the order of replies\<close>

lemmas list_defs = get_article_comments_def list_errors_def published_def page_of_def
  limit_of_def sort_of_def top_level_def join_users_def order_by_def view_of_def author_of_def
  likes_count_def approved_replies_def get_replies_def reply_of_def reply_def fail_def



lemma list_ok:
  assumes "body (get_article_comments d aid q) = ListBody cvs pg"
  obtains a where "aid = Some a" and "list_errors q = []" and "published d a \<noteq> []"
    and "cvs = map (view_of d) (take (nat (limit_of q)) (drop (nat ((page_of q - 1) * limit_of q))
                 (order_by (sort_of q) d (join_users d (top_level d a)))))"
    and "pg = \<lparr>currentPage = page_of q,
               totalPages = \<lceil>real_of_int (int (length (top_level d a))) / real_of_int (limit_of q)\<rceil>,
               totalComments = int (length (top_level d a)),
               hasNextPage = (page_of q
                  < \<lceil>real_of_int (int (length (top_level d a))) / real_of_int (limit_of q)\<rceil>),
               hasPrevPage = (page_of q > 1)\<rparr>"
  using assms unfolding get_article_comments_def
  by (auto simp add: reply_def fail_def Let_def split: if_splits option.splits)

lemma get_replies_sorted: "sorted (map rv_createdAt (get_replies d i))"
proof -
  have "map rv_createdAt (get_replies d i) =
        map (\<lambda>(c, u). c_created_at c)
          (sort_key (\<lambda>(c, u). c_created_at c) (join_users d (approved_replies d i)))"
    by (simp add: get_replies_def reply_of_def split_def)
  then show ?thesis by (simp only: sorted_sort_key)
qed

lemma view_replies: "cv_replies (view_of d r) = get_replies d (cv_id (view_of d r))"
  by (simp add: view_of_def split_def)



text \<open>
  C10: in every list response the replies of each top-level comment are in ascending order
  of their creation time, and a request that differs only in its \<open>sort\<close> parameter returns
  the same replies, in the same order, for the same top-level comment.
\<close>

theorem replies_oldest_first:
  assumes "body (get_article_comments d aid q) = ListBody cvs pg"
    and "cv \<in> set cvs"
    and "body (get_article_comments d aid (q\<lparr>q_sort := s\<rparr>)) = ListBody cvs' pg'"
    and "cv' \<in> set cvs'"
    and "cv_id cv' = cv_id cv"
  shows "sorted (map rv_createdAt (cv_replies cv)) \<and> cv_replies cv' = cv_replies cv"
proof -
  from assms(1) obtain a where
    "cvs = map (view_of d) (take (nat (limit_of q)) (drop (nat ((page_of q - 1) * limit_of q))
                 (order_by (sort_of q) d (join_users d (top_level d a)))))"
    by (rule list_ok)
  with assms(2) obtain r where r: "cv = view_of d r" by auto
  from assms(3) obtain a' where
    "cvs' = map (view_of d) (take (nat (limit_of (q\<lparr>q_sort := s\<rparr>)))
               (drop (nat ((page_of (q\<lparr>q_sort := s\<rparr>) - 1) * limit_of (q\<lparr>q_sort := s\<rparr>)))
                 (order_by (sort_of (q\<lparr>q_sort := s\<rparr>)) d (join_users d (top_level d a')))))"
    by (rule list_ok)
  with assms(4) obtain r' where r': "cv' = view_of d r'" by auto
  have "cv_replies cv = get_replies d (cv_id cv)" "cv_replies cv' = get_replies d (cv_id cv')"
    using r r' view_replies by simp_all
  then show ?thesis using assms(5) get_replies_sorted by simp
qed

text \<open>
  C10 on the sample store: sorted by likes or oldest first, comment 100 comes with its
  replies 102 (created at 30) and 101 (created at 40), in this order.
\<close>

theorem replies_oldest_first_witness:
  "(case body (get_article_comments db0 (Some 10) q1) of
      ListBody cvs pg \<Rightarrow>
        (case body (get_article_comments db0 (Some 10) (q1\<lparr>q_sort := Some ''oldest''\<rparr>)) of
           ListBody cvs' pg' \<Rightarrow>
             map cv_id cvs = [100] \<and> map cv_id cvs' = [100] \<and>
             map (map rv_id \<circ> cv_replies) cvs = [ [102, 101] ] \<and>
             map (map rv_createdAt \<circ> cv_replies) cvs = [ [30, 40] ] \<and>
             map cv_replies cvs' = map cv_replies cvs
         | _ \<Rightarrow> False)
    | _ \<Rightarrow> False)"
proof -
  obtain cvs pg where b: "body (get_article_comments db0 (Some 10) q1) = ListBody cvs pg"
    and i: "map cv_id cvs = [100]" and r: "map (map rv_id \<circ> cv_replies) cvs = [ [102, 101] ]"
    and t: "map (map rv_createdAt \<circ> cv_replies) cvs = [ [30, 40] ]"
    by (simp add: list_defs q1_def db0_def)
  obtain cvs' pg' where b': "body (get_article_comments db0 (Some 10)
        (q1\<lparr>q_sort := Some ''oldest''\<rparr>)) = ListBody cvs' pg'"
    and i': "map cv_id cvs' = [100]"
    by (simp add: list_defs q1_def db0_def)
  from i obtain cv where cv: "cvs = [cv]" "cv_id cv = 100" by auto
  from i' obtain cv' where cv': "cvs' = [cv']" "cv_id cv' = 100" by auto
  have "cv_replies cv' = cv_replies cv"
    using replies_oldest_first[OF b _ b', of cv cv'] cv cv' by simp
  then show ?thesis using b b' i i' r t cv cv' by simp
qed

section \<open>Creating and updating comments\<close>

text \<open>
  C5: for every valid create-comment request (authenticated actor, valid content, published
  article, parent absent or an approved comment of the same article), a comment is created
  (status 201) exactly when the \<open>INSERT\<close> does not throw, that is when the content is a
  \<open>TEXT\<close> value and the generated id is new; otherwise the response is 500 and the store is
  unchanged. For the created comment, the \<open>isApproved\<close> flag of the response equals
  \<open>actor.role == admin\<close>, and so does the \<open>is_approved\<close> column of the persisted row.
\<close>

theorem post_comment_approval:
  assumes "authenticateToken e d h = Inr u"
    and "valid_content (trim content)"
    and "published d a \<noteq> []"
    and "pid \<noteq> Invalid"
    and "\<forall>p. pid = Given p \<longrightarrow>
           filter (\<lambda>c. c_id c = p \<and> c_article_id c = a \<and> c_is_approved c) (comments d) \<noteq> []"
  shows "(status (fst (post_comment e d h content (Given a) pid)) = 201
            \<longleftrightarrow> storable_text (trim content) \<and> new_id e \<notin> set (map c_id (comments d)))
     \<and> (status (fst (post_comment e d h content (Given a) pid)) = 201 \<longrightarrow>
           (\<exists>m v. body (fst (post_comment e d h content (Given a) pid)) = CreatedBody m v
              \<and> nv_id v = new_id e \<and> nv_isApproved v = (u_role u = Admin))
         \<and> map c_is_approved (filter (\<lambda>c. c_id c = new_id e)
              (comments (snd (post_comment e d h content (Given a) pid))))
             = [u_role u = Admin])
     \<and> (status (fst (post_comment e d h content (Given a) pid)) \<noteq> 201 \<longrightarrow>
           status (fst (post_comment e d h content (Given a) pid)) = 500
         \<and> snd (post_comment e d h content (Given a) pid) = d)"
proof -
  let ?row = "\<lparr>c_id = new_id e, c_content = trim content, c_article_id = a,
               c_user_id = u_id u, c_parent_id = parent_of pid,
               c_is_approved = (if u_role u = Admin then True else False),
               c_created_at = now e, c_updated_at = now e\<rparr>"
  let ?ok = "storable_text (trim content) \<and> new_id e \<notin> set (map c_id (comments d))"
  have ce: "create_errors content (Given a) pid = []"
    using assms(2,4) by (cases pid) (simp_all add: create_errors_def)
  obtain x xs where "published d a = x # xs" using assms(3) by (cases "published d a") auto
  then have "x \<in> set (published d a)" by simp
  then have fa: "a \<in> set (map a_id (articles d))" by (auto simp add: published_def)
  have fu: "u_id u \<in> set (map u_id (users d))" using auth_user[OF assms(1)] by auto
  have par: "\<not> (case parent_of pid of None \<Rightarrow> False
               | Some p \<Rightarrow> filter (\<lambda>c. c_id c = p \<and> c_article_id c = a \<and> c_is_approved c)
                            (comments d) = [])"
    using assms(4,5) by (cases pid) (simp_all add: parent_of_def)
  have fp: "\<not> (case parent_of pid of None \<Rightarrow> False | Some p \<Rightarrow> p \<notin> set (map c_id (comments d)))"
  proof (cases pid)
    case (Given p)
    then have "filter (\<lambda>c. c_id c = p \<and> c_article_id c = a \<and> c_is_approved c) (comments d) \<noteq> []"
      using assms(5) by simp
    then obtain c where "c \<in> set (comments d)" "c_id c = p"
      by (metis (mono_tags, lifting) filter_False)
    then show ?thesis using Given by (auto simp add: parent_of_def)
  qed (simp_all add: parent_of_def)
  have post: "post_comment e d h content (Given a) pid =
      (case insert_comment d ?row of
         Inl _ \<Rightarrow> (fail 500 ''Failed to create comment''
                    ''An error occurred while creating the comment'', d)
       | Inr d' \<Rightarrow>
           (reply 201
              (CreatedBody
                 (if u_role u = Admin then ''Comment created successfully''
                  else ''Comment submitted for approval'')
                 \<lparr>nv_id = new_id e, nv_content = trim content,
                  nv_createdAt = now e, nv_parentId = parent_of pid,
                  nv_isApproved = (u_role u = Admin),
                  nv_author = author_of u\<rparr>), d'))"
    using assms(1,3) ce par by (simp add: post_comment_def)
  show ?thesis
  proof (cases ?ok)
    case True
    have ins: "insert_comment d ?row = Inr (d\<lparr>comments := comments d @ [?row]\<rparr>)"
      using True fa fu fp by (simp add: insert_comment_def)
    have nf: "filter (\<lambda>c. c_id c = new_id e) (comments d) = []"
      using True by (force simp add: filter_empty_conv)
    show ?thesis using True nf by (simp add: post ins reply_def)
  next
    case False
    have "\<exists>er. insert_comment d ?row = Inl er"
    proof (cases "storable_text (trim content)")
      case True
      then have "new_id e \<in> set (map c_id (comments d))" using False by simp
      then show ?thesis using True by (simp add: insert_comment_def)
    next
      case False
      then show ?thesis by (simp add: insert_comment_def)
    qed
    then obtain er where "insert_comment d ?row = Inl er" by blast
    then show ?thesis using False by (simp add: post fail_def reply_def)
  qed
qed

text \<open>
  C5 on the sample store: user 3, who is no admin, replies to comment 100; the new comment
  500 is stored unapproved.
\<close>

theorem post_comment_approval_witness:
  "authenticateToken env0 db0 (Some ''Bearer bob-token'') = Inr (users db0 ! 2)
   \<and> u_role (users db0 ! 2) = RoleUser
   \<and> valid_content (trim ''  hi  '')
   \<and> published db0 10 \<noteq> []
   \<and> storable_text (trim ''  hi  '')
   \<and> new_id env0 \<notin> set (map c_id (comments db0))
   \<and> status (fst (post_comment env0 db0 (Some ''Bearer bob-token'') ''  hi  '' (Given 10)
        (Given 100))) = 201
   \<and> map c_is_approved (filter (\<lambda>c. c_id c = 500)
        (comments (snd (post_comment env0 db0 (Some ''Bearer bob-token'') ''  hi  ''
           (Given 10) (Given 100))))) = [False]"
proof -
  have a: "authenticateToken env0 db0 (Some ''Bearer bob-token'') = Inr (users db0 ! 2)"
    by (simp add: sample_auth)
  have r: "u_role (users db0 ! 2) = RoleUser" by (simp add: db0_def)
  have v: "valid_content (trim ''  hi  '')"
    by (simp add: valid_content_def trim_def is_space_def)
  have p: "published db0 10 \<noteq> []" by (simp add: published_def db0_def)
  have g: "Given (100::nat) \<noteq> Invalid" by simp
  have q: "\<forall>p. Given (100::nat) = Given p \<longrightarrow>
             filter (\<lambda>c. c_id c = p \<and> c_article_id c = 10 \<and> c_is_approved c) (comments db0) \<noteq> []"
    by (simp add: db0_def)
  have t: "storable_text (trim ''  hi  '')"
    by (simp add: storable_text_def trim_def is_space_def)
  have n: "new_id env0 \<notin> set (map c_id (comments db0))" "new_id env0 = 500"
    by (simp_all add: env0_def db0_def)
  from post_comment_approval[OF a v p g q] t n(1)
  have s: "status (fst (post_comment env0 db0 (Some ''Bearer bob-token'') ''  hi  '' (Given 10)
        (Given 100))) = 201"
    by blast
  with post_comment_approval[OF a v p g q]
  have "map c_is_approved (filter (\<lambda>c. c_id c = new_id env0)
        (comments (snd (post_comment env0 db0 (Some ''Bearer bob-token'') ''  hi  ''
           (Given 10) (Given 100))))) = [u_role (users db0 ! 2) = Admin]"
    by blast
  then show ?thesis using a r v p t n s by simp
qed

text \<open>
  A content with the character of code 0 passes the validator, the \<open>INSERT\<close> throws, and the
  response is 500 with the store unchanged.
\<close>

lemma post_comment_nul_content:
  "valid_content (trim [CHR ''a'', CHR 0x00, CHR ''b''])
   \<and> post_comment env0 db0 (Some ''Bearer bob-token'') [CHR ''a'', CHR 0x00, CHR ''b'']
        (Given 10) Absent
     = (fail 500 ''Failed to create comment''
          ''An error occurred while creating the comment'', db0)"
  by (simp add: post_comment_def sample_auth create_errors_def valid_content_def trim_def
      is_space_def published_def parent_of_def insert_comment_def storable_text_def)

text \<open>
  C9: whatever the outcome of an update-comment request, users, articles and like rows are
  unchanged, no comment is added or removed, and every comment keeps its id, approval flag,
  parent, article, author and creation time; a comment other than the target is unchanged,
  and on success the target differs from its old value in content and updated-at only.
\<close>

theorem put_comment_frame:
  assumes "put_comment e d h i content = (r, d')"
  shows "users d' = users d \<and> articles d' = articles d \<and> comment_likes d' = comment_likes d
     \<and> length (comments d') = length (comments d)
     \<and> (\<forall>n < length (comments d).
          c_id (comments d' ! n) = c_id (comments d ! n)
        \<and> c_is_approved (comments d' ! n) = c_is_approved (comments d ! n)
        \<and> c_parent_id (comments d' ! n) = c_parent_id (comments d ! n)
        \<and> c_article_id (comments d' ! n) = c_article_id (comments d ! n)
        \<and> c_user_id (comments d' ! n) = c_user_id (comments d ! n)
        \<and> c_created_at (comments d' ! n) = c_created_at (comments d ! n)
        \<and> (Some (c_id (comments d ! n)) \<noteq> i \<longrightarrow> comments d' ! n = comments d ! n)
        \<and> (status r = 200 \<and> Some (c_id (comments d ! n)) = i \<longrightarrow>
             comments d' ! n = (comments d ! n)\<lparr>c_content := trim content,
                                                 c_updated_at := now e\<rparr>))"
proof -
  have "(status r \<noteq> 200 \<and> d' = d) \<or> (\<exists>x. i = Some x \<and> status r = 200 \<and>
          d' = update_rows x (\<lambda>c. c\<lparr>c_content := trim content, c_updated_at := now e\<rparr>) d)"
    using assms unfolding put_comment_def
    by (auto simp add: reply_def fail_def split: sum.splits option.splits if_splits
          dest: auth_status guard_status)
  then show ?thesis
  proof
    assume "status r \<noteq> 200 \<and> d' = d"
    then show ?thesis by simp
  next
    assume "\<exists>x. i = Some x \<and> status r = 200 \<and>
          d' = update_rows x (\<lambda>c. c\<lparr>c_content := trim content, c_updated_at := now e\<rparr>) d"
    then show ?thesis by (auto simp add: update_rows_def split: if_splits)
  qed
qed

text \<open>
  C9 on the sample store: user 3 edits his reply 101; content and updated-at change, the
  other columns and the like rows do not.
\<close>

theorem put_comment_frame_witness:
  "status (fst (put_comment env0 db0 (Some ''Bearer bob-token'') (Some 101) ''  edited ''))
     = 200
   \<and> comments db0 ! 1 = \<lparr>c_id = 101, c_content = ''Late reply'', c_article_id = 10,
        c_user_id = 3, c_parent_id = Some 100, c_is_approved = True, c_created_at = 40,
        c_updated_at = 40\<rparr>
   \<and> comments (snd (put_comment env0 db0 (Some ''Bearer bob-token'') (Some 101)
        ''  edited '')) ! 1 = \<lparr>c_id = 101, c_content = ''edited'', c_article_id = 10,
        c_user_id = 3, c_parent_id = Some 100, c_is_approved = True, c_created_at = 40,
        c_updated_at = 50\<rparr>
   \<and> comment_likes (snd (put_comment env0 db0 (Some ''Bearer bob-token'') (Some 101)
        ''  edited '')) = comment_likes db0"
proof -
  obtain r d' where p: "put_comment env0 db0 (Some ''Bearer bob-token'') (Some 101)
      ''  edited '' = (r, d')"
    by (cases "put_comment env0 db0 (Some ''Bearer bob-token'') (Some 101) ''  edited ''")
  have s: "status r = 200"
    using p by (auto simp add: put_comment_def sample_auth requireOwnershipOrAdmin_def as_param_def
        valid_content_def storable_text_def trim_def is_space_def reply_def fail_def)
  have c: "comments db0 ! 1 = \<lparr>c_id = 101, c_content = ''Late reply'', c_article_id = 10,
        c_user_id = 3, c_parent_id = Some 100, c_is_approved = True, c_created_at = 40,
        c_updated_at = 40\<rparr>" "length (comments db0) = 5"
    by (simp_all add: db0_def)
  have t: "trim ''  edited '' = ''edited''" "now env0 = 50"
    by (simp_all add: trim_def is_space_def env0_def)
  from put_comment_frame[OF p] c s t
  have "comment_likes d' = comment_likes db0"
    "comments d' ! 1 = (comments db0 ! 1)\<lparr>c_content := ''edited'', c_updated_at := 50\<rparr>"
    by auto
  then show ?thesis using p s c by simp
qed

section \<open>Toggling a like\<close>

lemma like_frame:
  "post_like e d h i = (r, d') \<Longrightarrow> comments d' = comments d \<and> users d' = users d"
  unfolding post_like_def post_like_between_def insert_like_def
  by (auto split: sum.splits option.splits if_splits)

lemma auth_same_users:
  assumes "users d' = users d" and "jwt_verify e' = jwt_verify e"
  shows "authenticateToken e' d' h = authenticateToken e d h"
proof -
  have f: "find_user d' = find_user d"
    using assms(1) by (intro ext) (simp add: find_user_def)
  show ?thesis unfolding authenticateToken_def f assms(2) by (rule refl)
qed

lemma post_like_flip:
  assumes "authenticateToken e d h = Inr u"
    and "filter (\<lambda>c. c_id c = x \<and> c_is_approved c) (comments d) \<noteq> []"
    and "new_id e \<notin> set (map l_id (comment_likes d))"
  shows "status (fst (post_like e d h (Some x))) = 200
     \<and> liked_of (fst (post_like e d h (Some x))) = Some (\<not> has_like d x (u_id u))
     \<and> has_like (snd (post_like e d h (Some x))) x (u_id u) = (\<not> has_like d x (u_id u))
     \<and> set (map l_id (comment_likes (snd (post_like e d h (Some x)))))
          \<subseteq> insert (new_id e) (set (map l_id (comment_likes d)))
     \<and> (has_like d x (u_id u) \<longrightarrow>
          set (map l_id (comment_likes (snd (post_like e d h (Some x)))))
            \<subseteq> set (map l_id (comment_likes d)))"
proof (cases "has_like d x (u_id u)")
  case True
  then show ?thesis using assms(1,2)
    by (auto simp add: post_like_def post_like_between_def reply_def has_like_def
         liked_of_def filter_empty_conv)
next
  case False
  obtain c where "c \<in> set (comments d)" "c_id c = x"
    using assms(2) by (metis (mono_tags, lifting) filter_False)
  then have fc: "x \<in> set (map c_id (comments d))" by auto
  have fu: "u_id u \<in> set (map u_id (users d))" using auth_user[OF assms(1)] by auto
  have "insert_like d \<lparr>l_id = new_id e, l_comment_id = x, l_user_id = u_id u,
          l_created_at = now e\<rparr>
        = Inr (d\<lparr>comment_likes := comment_likes d @
             [\<lparr>l_id = new_id e, l_comment_id = x, l_user_id = u_id u, l_created_at = now e\<rparr>]\<rparr>)"
    using False fc fu assms(3) by (simp add: insert_like_def)
  then show ?thesis using False assms(1,2)
    by (auto simp add: post_like_def post_like_between_def reply_def has_like_def liked_of_def)
qed

text \<open>
  C7: for an approved comment and an authenticated actor (the generated ids being new), a
  toggle-like call answers 200, reports \<open>liked\<close> as the negation of whether the actor's like
  row existed, and leaves the row existing exactly when it did not exist before; a second
  call by the same actor reports the opposite and restores the original existence.
\<close>

theorem toggle_like_twice:
  assumes "authenticateToken e d h = Inr u"
    and "filter (\<lambda>c. c_id c = x \<and> c_is_approved c) (comments d) \<noteq> []"
    and "new_id e \<notin> set (map l_id (comment_likes d))"
    and "jwt_verify e' = jwt_verify e"
    and "new_id e' \<notin> set (map l_id (comment_likes d))"
    and "post_like e d h (Some x) = (r1, d1)"
    and "post_like e' d1 h (Some x) = (r2, d2)"
  shows "status r1 = 200 \<and> liked_of r1 = Some (\<not> has_like d x (u_id u))
     \<and> has_like d1 x (u_id u) = (\<not> has_like d x (u_id u))
     \<and> status r2 = 200 \<and> liked_of r2 = Some (has_like d x (u_id u))
     \<and> has_like d2 x (u_id u) = has_like d x (u_id u)"
proof -
  have one: "status r1 = 200" "liked_of r1 = Some (\<not> has_like d x (u_id u))"
    "has_like d1 x (u_id u) = (\<not> has_like d x (u_id u))"
    "has_like d x (u_id u) \<longrightarrow>
       set (map l_id (comment_likes d1)) \<subseteq> set (map l_id (comment_likes d))"
    using post_like_flip[OF assms(1,2,3)] assms(6) by simp_all
  have fr: "comments d1 = comments d" "users d1 = users d"
    using like_frame[OF assms(6)] by simp_all
  have a2: "authenticateToken e' d1 h = Inr u"
    using auth_same_users[OF fr(2) assms(4)] assms(1) by simp
  have c2: "filter (\<lambda>c. c_id c = x \<and> c_is_approved c) (comments d1) \<noteq> []"
    using assms(2) fr(1) by simp
  show ?thesis
  proof (cases "has_like d x (u_id u)")
    case True
    then have n2: "new_id e' \<notin> set (map l_id (comment_likes d1))"
      using one(4) assms(5) by auto
    show ?thesis using post_like_flip[OF a2 c2 n2] assms(7) one by simp
  next
    case False
    then have h1: "has_like d1 x (u_id u)" using one(3) by simp
    have "status (fst (post_like e' d1 h (Some x))) = 200
       \<and> liked_of (fst (post_like e' d1 h (Some x))) = Some False
       \<and> \<not> has_like (snd (post_like e' d1 h (Some x))) x (u_id u)"
      using a2 c2 h1
      by (auto simp add: post_like_def post_like_between_def reply_def has_like_def
           liked_of_def filter_empty_conv)
    then show ?thesis using assms(7) one False by simp
  qed
qed

text \<open>
  C7 on the sample store: user 3 has liked comment 100; the first call unlikes, the second
  likes again.
\<close>

theorem toggle_like_twice_witness:
  "authenticateToken env0 db0 (Some ''Bearer bob-token'') = Inr (users db0 ! 2)
   \<and> has_like db0 100 3
   \<and> liked_of (fst (post_like env0 db0 (Some ''Bearer bob-token'') (Some 100))) = Some False
   \<and> \<not> has_like (snd (post_like env0 db0 (Some ''Bearer bob-token'') (Some 100))) 100 3
   \<and> liked_of (fst (post_like env1 (snd (post_like env0 db0 (Some ''Bearer bob-token'')
        (Some 100))) (Some ''Bearer bob-token'') (Some 100))) = Some True
   \<and> has_like (snd (post_like env1 (snd (post_like env0 db0 (Some ''Bearer bob-token'')
        (Some 100))) (Some ''Bearer bob-token'') (Some 100))) 100 3"
proof -
  obtain r1 d1 where p1: "post_like env0 db0 (Some ''Bearer bob-token'') (Some 100) = (r1, d1)"
    by (cases "post_like env0 db0 (Some ''Bearer bob-token'') (Some 100)")
  obtain r2 d2 where p2: "post_like env1 d1 (Some ''Bearer bob-token'') (Some 100) = (r2, d2)"
    by (cases "post_like env1 d1 (Some ''Bearer bob-token'') (Some 100)")
  have a: "authenticateToken env0 db0 (Some ''Bearer bob-token'') = Inr (users db0 ! 2)"
    by (simp add: sample_auth)
  have c: "filter (\<lambda>c. c_id c = 100 \<and> c_is_approved c) (comments db0) \<noteq> []"
    by (simp add: db0_def)
  have n: "new_id env0 \<notin> set (map l_id (comment_likes db0))"
    "new_id env1 \<notin> set (map l_id (comment_likes db0))"
    by (simp_all add: env0_def env1_def db0_def)
  have j: "jwt_verify env1 = jwt_verify env0" by (simp add: env1_def)
  have i: "u_id (users db0 ! 2) = 3" by (simp add: db0_def)
  have l: "has_like db0 100 3" by (simp add: has_like_def db0_def)
  from toggle_like_twice[OF a c n(1) j n(2) p1 p2] i l
  have "liked_of r1 = Some False" "\<not> has_like d1 100 3" "liked_of r2 = Some True"
    "has_like d2 100 3"
    by simp_all
  then show ?thesis using a l p1 p2 by simp
qed

section \<open>Deleting a comment\<close>

lemma cascade_closed:
  assumes "cascade front gone cs = (g, rest)"
    and "\<forall>c \<in> set cs. \<forall>p. c_parent_id c = Some p \<longrightarrow> p \<in> set gone \<longrightarrow> p \<in> set front"
  shows "set gone \<subseteq> set g \<and> set rest \<subseteq> set cs
         \<and> (\<forall>c \<in> set rest. \<forall>p. c_parent_id c = Some p \<longrightarrow> p \<notin> set g)"
  using assms
proof (induction front gone cs rule: cascade.induct)
  case (1 front gone cs)
  show ?case
  proof (cases "filter (child_of front) cs = []")
    case True
    then have r: "g = gone" "rest = cs" using "1.prems"(1) by (simp_all add: cascade.simps)
    have "\<forall>c \<in> set cs. \<not> child_of front c" using True by (simp add: filter_empty_conv)
    then have "\<forall>c \<in> set cs. \<forall>p. c_parent_id c = Some p \<longrightarrow> p \<notin> set front"
      by (auto simp add: child_of_def)
    then show ?thesis using r "1.prems"(2) by blast
  next
    case False
    let ?kids = "filter (child_of front) cs"
    let ?rest = "filter (\<lambda>c. \<not> child_of front c) cs"
    have e: "cascade (map c_id ?kids) (gone @ map c_id ?kids) ?rest = (g, rest)"
      using "1.prems"(1) False by (simp add: cascade.simps)
    have inv: "\<forall>c \<in> set ?rest. \<forall>p. c_parent_id c = Some p \<longrightarrow>
                 p \<in> set (gone @ map c_id ?kids) \<longrightarrow> p \<in> set (map c_id ?kids)"
    proof (intro ballI allI impI)
      fix c p
      assume c: "c \<in> set ?rest" and p: "c_parent_id c = Some p"
        and m: "p \<in> set (gone @ map c_id ?kids)"
      have "p \<notin> set front" using c p by (auto simp add: child_of_def)
      then have "p \<notin> set gone" using "1.prems"(2) c p by auto
      then show "p \<in> set (map c_id ?kids)" using m by simp
    qed
    from "1.IH"[OF False e inv]
    show ?thesis by auto
  qed
qed

lemma cascade_sublist:
  "distinct (map c_id cs) \<Longrightarrow> distinct (map c_id (snd (cascade front gone cs)))"
proof (induction front gone cs rule: cascade.induct)
  case (1 front gone cs)
  show ?case
  proof (cases "filter (child_of front) cs = []")
    case True
    then show ?thesis using "1.prems" by (simp add: cascade.simps)
  next
    case False
    have "distinct (map c_id (filter (\<lambda>c. \<not> child_of front c) cs))"
      using "1.prems" by (rule distinct_map_filter)
    from "1.IH"[OF False this] show ?thesis using False
      by (subst cascade.simps) simp
  qed
qed

lemma delete_rows_post:
  assumes "delete_rows d x = d'"
  shows "set (comments d') \<subseteq> set (comments d)
       \<and> users d' = users d \<and> articles d' = articles d
       \<and> (\<forall>c \<in> set (comments d'). c_id c \<noteq> x \<and> c_parent_id c \<noteq> Some x)
       \<and> (\<forall>l \<in> set (comment_likes d'). l_comment_id l \<noteq> x \<and> l \<in> set (comment_likes d))"
proof -
  obtain g rest where c: "cascade [x] [x] (filter (\<lambda>c. c_id c \<noteq> x) (comments d)) = (g, rest)"
    by (cases "cascade [x] [x] (filter (\<lambda>c. c_id c \<noteq> x) (comments d))")
  have d': "d' = d\<lparr>comments := rest,
               comment_likes := filter (\<lambda>l. l_comment_id l \<notin> set g) (comment_likes d)\<rparr>"
    using assms c by (simp add: delete_rows_def)
  from cascade_closed[OF c]
  have p: "set [x] \<subseteq> set g" "set rest \<subseteq> set (filter (\<lambda>c. c_id c \<noteq> x) (comments d))"
    "\<forall>c \<in> set rest. \<forall>p. c_parent_id c = Some p \<longrightarrow> p \<notin> set g"
    by simp_all
  then have xg: "x \<in> set g" by simp
  show ?thesis using p(2,3) xg by (auto simp add: d')
qed

text \<open>
  C4: for every existing comment and every actor who passes the ownership-or-admin guard,
  the delete operation answers 200, and afterwards there is no comment with the deleted id,
  no like row that refers to it and no comment whose parent it was.
\<close>

theorem delete_comment_cascades:
  assumes "authenticateToken e d h = Inr u"
    and "requireOwnershipOrAdmin d u (Given x) = None"
    and "filter (\<lambda>c. c_id c = x) (comments d) \<noteq> []"
  shows "status (fst (delete_comment e d h (Some x))) = 200
     \<and> filter (\<lambda>c. c_id c = x) (comments (snd (delete_comment e d h (Some x)))) = []
     \<and> filter (\<lambda>l. l_comment_id l = x) (comment_likes (snd (delete_comment e d h (Some x)))) = []
     \<and> filter (\<lambda>c. c_parent_id c = Some x) (comments (snd (delete_comment e d h (Some x)))) = []"
proof -
  have r: "delete_comment e d h (Some x) =
        (reply 200 (MessageBody ''Comment deleted successfully''), delete_rows d x)"
    using assms by (simp add: delete_comment_def as_param_def)
  show ?thesis
    using delete_rows_post[OF refl, of d x]
    by (auto simp add: r reply_def filter_empty_conv)
qed

text \<open>
  C4 on the sample store: user 2 deletes her comment 100, which has the replies 101 and 102
  and the like 1000.
\<close>

theorem delete_comment_cascades_witness:
  "authenticateToken env0 db0 (Some ''Bearer alice-token'') = Inr (users db0 ! 1)
   \<and> u_role (users db0 ! 1) = RoleUser
   \<and> requireOwnershipOrAdmin db0 (users db0 ! 1) (Given 100) = None
   \<and> map c_id (filter (\<lambda>c. c_parent_id c = Some 100) (comments db0)) = [101, 102]
   \<and> map l_id (filter (\<lambda>l. l_comment_id l = 100) (comment_likes db0)) = [1000]
   \<and> status (fst (delete_comment env0 db0 (Some ''Bearer alice-token'') (Some 100))) = 200
   \<and> filter (\<lambda>c. c_id c = 100 \<or> c_parent_id c = Some 100)
       (comments (snd (delete_comment env0 db0 (Some ''Bearer alice-token'') (Some 100)))) = []
   \<and> filter (\<lambda>l. l_comment_id l = 100)
       (comment_likes (snd (delete_comment env0 db0 (Some ''Bearer alice-token'') (Some 100))))
       = []"
proof -
  have a: "authenticateToken env0 db0 (Some ''Bearer alice-token'') = Inr (users db0 ! 1)"
    by (simp add: sample_auth)
  have g: "requireOwnershipOrAdmin db0 (users db0 ! 1) (Given 100) = None"
    by (simp add: requireOwnershipOrAdmin_def db0_def)
  have c: "filter (\<lambda>c. c_id c = 100) (comments db0) \<noteq> []" by (simp add: db0_def)
  have o: "u_role (users db0 ! 1) = RoleUser"
    "map c_id (filter (\<lambda>c. c_parent_id c = Some 100) (comments db0)) = [101, 102]"
    "map l_id (filter (\<lambda>l. l_comment_id l = 100) (comment_likes db0)) = [1000]"
    by (simp_all add: db0_def)
  show ?thesis
    using delete_comment_cascades[OF a g c] a g o
    by (auto simp add: filter_empty_conv)
qed

section \<open>Approval is never taken away\<close>

lemma keeps_refl: "keeps_approval d d"
  by (simp add: keeps_approval_def)

lemma keeps_same: "comments d' = comments d \<Longrightarrow> keeps_approval d d'"
  by (simp add: keeps_approval_def)

lemma keeps_update:
  assumes "\<And>c. c_id (f c) = c_id c" and "\<And>c. c_is_approved c \<Longrightarrow> c_is_approved (f c)"
  shows "keeps_approval d (update_rows x f d)"
  unfolding keeps_approval_def
proof
  fix c'
  assume "c' \<in> set (comments (update_rows x f d))"
  then obtain c0 where c0: "c0 \<in> set (comments d)" "c' = (if c_id c0 = x then f c0 else c0)"
    by (auto simp add: update_rows_def)
  then have "c_id c0 = c_id c' \<and> (c_is_approved c0 \<longrightarrow> c_is_approved c')"
    using assms by simp
  then show "c' \<in> set (comments d)
      \<or> (\<exists>c \<in> set (comments d). c_id c = c_id c' \<and> (c_is_approved c \<longrightarrow> c_is_approved c'))
      \<or> c_id c' \<notin> set (map c_id (comments d))"
    using c0(1) by blast
qed

lemma update_rows_ids:
  assumes "\<And>c. c_id (f c) = c_id c"
  shows "map c_id (comments (update_rows x f d)) = map c_id (comments d)"
  using assms by (simp add: update_rows_def o_def if_distrib cong: if_cong)

lemma keeps_delete: "keeps_approval d (delete_rows d x)"
  using delete_rows_post[OF refl, of d x] by (auto simp add: keeps_approval_def)

lemma keeps_insert: "insert_comment d r = Inr d' \<Longrightarrow> keeps_approval d d'"
  by (auto simp add: insert_comment_def keeps_approval_def split: if_splits)

lemma handle_keeps: "handle e d rq = (r, d') \<Longrightarrow> keeps_approval d d'"
proof (cases rq)
  case (GetArticleComments a q)
  assume "handle e d rq = (r, d')"
  then show ?thesis using GetArticleComments by (auto simp add: keeps_refl)
next
  case (PostComment h content a p)
  assume "handle e d rq = (r, d')"
  then show ?thesis using PostComment
    by (auto simp add: post_comment_def keeps_refl split: sum.splits if_splits param.splits
         dest: keeps_insert)
next
  case (PutComment h i content)
  assume "handle e d rq = (r, d')"
  then show ?thesis using PutComment
    by (auto simp add: put_comment_def keeps_refl split: sum.splits if_splits option.splits
         intro!: keeps_update)
next
  case (DeleteComment h i)
  assume "handle e d rq = (r, d')"
  then show ?thesis using DeleteComment
    by (auto simp add: delete_comment_def keeps_refl keeps_delete
         split: sum.splits if_splits option.splits)
next
  case (PostLike h i)
  assume "handle e d rq = (r, d')"
  then show ?thesis using PostLike like_frame[of e d h i r d'] by (simp add: keeps_same)
next
  case (PutApprove h i)
  assume "handle e d rq = (r, d')"
  then show ?thesis using PutApprove
    by (auto simp add: put_approve_def keeps_refl split: sum.splits if_splits option.splits
         intro!: keeps_update)
next
  case (GetPending h b)
  assume "handle e d rq = (r, d')"
  then show ?thesis using GetPending by (auto simp add: keeps_refl)
qed

lemma handle_primary_key:
  assumes "handle e d rq = (r, d')" and "distinct (map c_id (comments d))"
  shows "distinct (map c_id (comments d'))"
proof (cases rq)
  case (GetArticleComments a q)
  then show ?thesis using assms by auto
next
  case (PostComment h content a p)
  then show ?thesis using assms
    by (auto simp add: post_comment_def insert_comment_def
         split: sum.splits if_splits param.splits)
next
  case (PutComment h i content)
  then show ?thesis using assms
    by (auto simp add: put_comment_def update_rows_ids
         split: sum.splits if_splits option.splits)
next
  case (DeleteComment h i)
  have "\<And>x. distinct (map c_id (comments (delete_rows d x)))"
  proof -
    fix x
    have "distinct (map c_id (filter (\<lambda>c. c_id c \<noteq> x) (comments d)))"
      using assms(2) by (rule distinct_map_filter)
    from cascade_sublist[OF this, of "[x]" "[x]"]
    show "distinct (map c_id (comments (delete_rows d x)))"
      by (simp add: delete_rows_def split_def)
  qed
  then show ?thesis using assms DeleteComment
    by (auto simp add: delete_comment_def split: sum.splits if_splits option.splits)
next
  case (PostLike h i)
  then show ?thesis using assms like_frame[of e d h i r d'] by simp
next
  case (PutApprove h i)
  then show ?thesis using assms
    by (auto simp add: put_approve_def update_rows_ids
         split: sum.splits if_splits option.splits)
next
  case (GetPending h b)
  then show ?thesis using assms by auto
qed

lemma handle_keeps_approved:
  assumes "distinct (map c_id (comments d))"
    and "handle e d rq = (r, d')"
    and "c \<in> set (comments d)" and "c_is_approved c"
    and "c' \<in> set (comments d')" and "c_id c' = c_id c"
  shows "c_is_approved c'"
proof -
  have inj: "\<And>a b. a \<in> set (comments d) \<Longrightarrow> b \<in> set (comments d) \<Longrightarrow> c_id a = c_id b \<Longrightarrow> a = b"
    using assms(1) by (meson distinct_map inj_onD)
  from handle_keeps[OF assms(2)] assms(5)
  consider "c' \<in> set (comments d)"
    | c0 where "c0 \<in> set (comments d)" "c_id c0 = c_id c'" "c_is_approved c0 \<longrightarrow> c_is_approved c'"
    | "c_id c' \<notin> set (map c_id (comments d))"
    unfolding keeps_approval_def by blast
  then show ?thesis
  proof cases
    case 1
    then have "c' = c" using inj assms(3,6) by blast
    then show ?thesis using assms(4) by simp
  next
    case 2
    then have "c0 = c" using inj assms(3,6) by simp
    then show ?thesis using 2 assms(4) by simp
  next
    case 3
    then show ?thesis using assms(3,6) by force
  qed
qed

text \<open>
  C8: from a store whose comment ids are distinct, through every sequence of requests of
  the comment subsystem (list, create, update, delete, toggle like, approve, list pending)
  after each of which the comment is still stored, a comment that is approved stays
  approved.
\<close>

theorem approval_never_revoked:
  assumes "distinct (map c_id (comments d))"
    and "c \<in> set (comments d)" and "c_is_approved c"
    and "survives (c_id c) d rs"
  shows "c_id c \<in> set (map c_id (comments (run d rs)))
     \<and> (\<forall>c' \<in> set (comments (run d rs)). c_id c' = c_id c \<longrightarrow> c_is_approved c')"
  using assms
proof (induction rs arbitrary: d c)
  case Nil
  have "\<And>a b. a \<in> set (comments d) \<Longrightarrow> b \<in> set (comments d) \<Longrightarrow> c_id a = c_id b \<Longrightarrow> a = b"
    using Nil.prems(1) by (meson distinct_map inj_onD)
  then show ?case using Nil.prems(2,3) by auto
next
  case (Cons er rs)
  obtain r d1 where h: "handle (fst er) d (snd er) = (r, d1)"
    by (cases "handle (fst er) d (snd er)")
  have s: "c_id c \<in> set (map c_id (comments d1))" "survives (c_id c) d1 rs"
    using Cons.prems(4) h by simp_all
  then obtain c1 where c1: "c1 \<in> set (comments d1)" "c_id c1 = c_id c" by auto
  have a1: "c_is_approved c1"
    using handle_keeps_approved[OF Cons.prems(1) h Cons.prems(2,3) c1] .
  have d1: "distinct (map c_id (comments d1))"
    using handle_primary_key[OF h Cons.prems(1)] .
  have "survives (c_id c1) d1 rs" using s(2) c1(2) by simp
  from Cons.IH[OF d1 c1(1) a1 this] show ?case using h c1(2) by simp
qed

lemmas handler_defs = put_comment_def post_like_def post_like_between_def put_approve_def
  delete_comment_def post_comment_def requireOwnershipOrAdmin_def as_param_def update_rows_def
  insert_like_def insert_comment_def has_like_def delete_rows_def child_of_def
  valid_content_def storable_text_def trim_def is_space_def create_errors_def parent_of_def
  published_def
  reply_def fail_def

text \<open>
  C8 on the sample store: comment 100 is approved and stays so through the six requests
  of \<open>rs0\<close>.
\<close>

theorem approval_never_revoked_witness:
  "distinct (map c_id (comments db0))
   \<and> c_id (comments db0 ! 0) = 100 \<and> c_is_approved (comments db0 ! 0)
   \<and> survives 100 db0 rs0
   \<and> 100 \<in> set (map c_id (comments (run db0 rs0)))
   \<and> filter (\<lambda>c'. c_id c' = 100 \<and> \<not> c_is_approved c') (comments (run db0 rs0)) = []"
proof -
  have a: "distinct (map c_id (comments db0))" by (simp add: db0_def)
  have b: "comments db0 ! 0 \<in> set (comments db0)" "c_is_approved (comments db0 ! 0)"
    "c_id (comments db0 ! 0) = 100"
    by (simp_all add: db0_def)
  have c: "survives 100 db0 rs0"
    by (simp add: rs0_def handler_defs sample_auth env1_def cascade.simps)
  show ?thesis
    using approval_never_revoked[OF a b(1,2), of rs0] a b c
    by (simp add: filter_empty_conv)
qed

end
